theory Spec2Isabelle
  imports Complex_Main "HOL-Library.Char_ord" "HOL-Library.List_Lexorder"
begin

section \<open>Python values and errors\<close>

text \<open>
  The program is Python 2 (it uses \<^verbatim>\<open>xrange\<close> and has no
  \<^verbatim>\<open>from __future__ import division\<close>).  Every exception the modelled code can raise
  on well-typed input is a value of \<open>error\<close>; a function that may raise returns
  \<open>error + 'a\<close> with \<open>Inl\<close> for the exception.
\<close>

datatype key = StrKey string | TtpKey string string

datatype error = KeyError key | IndexError | AttributeError string | ZeroDivisionError

definition bind :: "error + 'a \<Rightarrow> ('a \<Rightarrow> error + 'b) \<Rightarrow> error + 'b" where
  "bind m f = (case m of Inl e \<Rightarrow> Inl e | Inr x \<Rightarrow> f x)"

section \<open>Version model\<close>

text \<open>
  \<^verbatim>\<open>int(s)\<close> on a byte string, base 10: optional surrounding whitespace, an optional
  sign, then one or more decimal digits; anything else raises \<^verbatim>\<open>ValueError\<close>, which
  \<^verbatim>\<open>parse_version\<close> catches.  \<open>py_int\<close> returns \<open>None\<close> for that case.
  \<^verbatim>\<open>str(n)\<close> of an integer is its decimal rendering with a leading minus sign
  for negatives.
\<close>

definition is_digit :: "char \<Rightarrow> bool" where
  "is_digit c = (c \<in> set ''0123456789'')"

definition is_space :: "char \<Rightarrow> bool" where
  "is_space c = (c \<in> {CHR '' '', CHR 0x09, CHR 0x0A, CHR 0x0B, CHR 0x0C, CHR 0x0D})"

definition digit_val :: "char \<Rightarrow> nat" where
  "digit_val c = of_char c - 48"

definition digit_char :: "nat \<Rightarrow> char" where
  "digit_char n = ''0123456789'' ! n"

definition digits_to_nat :: "string \<Rightarrow> nat" where
  "digits_to_nat ds = foldl (\<lambda>a c. 10 * a + digit_val c) 0 ds"

fun nat_to_digits :: "nat \<Rightarrow> string" where
  "nat_to_digits n =
     (if n < 10 then [digit_char n] else nat_to_digits (n div 10) @ [digit_char (n mod 10)])"

declare nat_to_digits.simps [simp del]

definition py_int :: "string \<Rightarrow> int option" where
  "py_int s =
     (let t = dropWhile is_space s;
          neg = (t \<noteq> [] \<and> hd t = CHR ''-'');
          u = (if t \<noteq> [] \<and> (hd t = CHR ''-'' \<or> hd t = CHR ''+'') then tl t else t);
          ds = takeWhile is_digit u;
          rest = dropWhile is_digit u
      in if ds = [] \<or> \<not> list_all is_space rest then None
         else Some (if neg then - int (digits_to_nat ds) else int (digits_to_nat ds)))"

definition py_str_int :: "int \<Rightarrow> string" where
  "py_str_int n = (if n < 0 then CHR ''-'' # nat_to_digits (nat (- n)) else nat_to_digits (nat n))"

text \<open>A version tuple holds integers and strings.\<close>

datatype part = PInt int | PStr string

type_synonym version = "part list"

text \<open>\<^verbatim>\<open>ver.split(".")\<close>: always at least one part, empty parts are kept.\<close>

fun split_dot :: "string \<Rightarrow> string list" where
  "split_dot [] = [[]]"
| "split_dot (c # cs) =
     (if c = CHR ''.'' then [] # split_dot cs
      else (c # hd (split_dot cs)) # tl (split_dot cs))"

text \<open>\<^verbatim>\<open>".".join(xs)\<close>\<close>

fun join_dot :: "string list \<Rightarrow> string" where
  "join_dot [] = []"
| "join_dot [x] = x"
| "join_dot (x # y # ys) = x @ CHR ''.'' # join_dot (y # ys)"

text \<open>The body of the loop of \<^verbatim>\<open>parse_version\<close>: \<^verbatim>\<open>try: parts[i] = int(parts[i])
  except ValueError: pass\<close>.\<close>

definition parse_part :: "string \<Rightarrow> part" where
  "parse_part p = (case py_int p of Some n \<Rightarrow> PInt n | None \<Rightarrow> PStr p)"

definition parse_version :: "string \<Rightarrow> version" where
  "parse_version ver = map parse_part (split_dot ver)"

fun str_part :: "part \<Rightarrow> string" where
  "str_part (PInt n) = py_str_int n"
| "str_part (PStr s) = s"

definition format_version :: "version \<Rightarrow> string" where
  "format_version ver_tuple = join_dot (map str_part ver_tuple)"

text \<open>
  Python 2 orders tuples lexicographically (a proper prefix is smaller); inside a tuple an
  integer is smaller than every string, integers compare numerically and byte strings
  bytewise.  The list order is the lexicographic one of \<open>List_Lexorder\<close>, the character
  order the byte order of \<open>Char_ord\<close>.
\<close>

instantiation part :: linorder
begin

fun less_eq_part :: "part \<Rightarrow> part \<Rightarrow> bool" where
  "less_eq_part (PInt a) (PInt b) = (a \<le> b)"
| "less_eq_part (PInt a) (PStr t) = True"
| "less_eq_part (PStr s) (PInt b) = False"
| "less_eq_part (PStr s) (PStr t) = (s \<le> t)"

definition less_part :: "part \<Rightarrow> part \<Rightarrow> bool" where
  "less_part x y = (x \<le> y \<and> \<not> y \<le> (x::part))"

instance
proof
  fix x y z :: part
  show "(x < y) = (x \<le> y \<and> \<not> y \<le> x)" by (simp add: less_part_def)
  show "x \<le> x" by (cases x) simp_all
  show "x \<le> y \<Longrightarrow> y \<le> z \<Longrightarrow> x \<le> z" by (cases x; cases y; cases z) auto
  show "x \<le> y \<Longrightarrow> y \<le> x \<Longrightarrow> x = y" by (cases x; cases y) auto
  show "x \<le> y \<or> y \<le> x" by (cases x; cases y) auto
qed

end

text \<open>
  \<^verbatim>\<open>xs.sort(reverse=True)\<close>: a stable sort into descending order that compares with
  \<^verbatim>\<open><\<close> only.  Elements that are not smaller one than the other keep their order.
\<close>

fun insert_desc :: "('a \<Rightarrow> 'a \<Rightarrow> bool) \<Rightarrow> 'a \<Rightarrow> 'a list \<Rightarrow> 'a list" where
  "insert_desc lt x [] = [x]"
| "insert_desc lt x (y # ys) = (if lt x y then y # insert_desc lt x ys else x # y # ys)"

definition sort_reverse :: "('a \<Rightarrow> 'a \<Rightarrow> bool) \<Rightarrow> 'a list \<Rightarrow> 'a list" where
  "sort_reverse lt xs = foldr (insert_desc lt) xs []"


section \<open>Numbers\<close>

text \<open>
  The values held by parameter sets and constraint fields are Python integers, booleans
  and floats.  A boolean counts as the integer 0 or 1 in arithmetic and comparison.
  Floats are modelled as exact reals: rounding, infinities and NaN are outside the model.
  Arithmetic on two non-floats yields an integer, anything else a float; \<^verbatim>\<open>/\<close> on two
  non-floats is Python 2's floor division.
\<close>

datatype pyval = VInt int | VBool bool | VFloat real

fun is_float :: "pyval \<Rightarrow> bool" where
  "is_float (VFloat r) = True"
| "is_float v = False"

fun as_int :: "pyval \<Rightarrow> int" where
  "as_int (VInt n) = n"
| "as_int (VBool b) = (if b then 1 else 0)"
| "as_int (VFloat r) = \<lfloor>r\<rfloor>"

fun as_real :: "pyval \<Rightarrow> real" where
  "as_real (VFloat r) = r"
| "as_real v = real_of_int (as_int v)"

definition arith :: "(int \<Rightarrow> int \<Rightarrow> int) \<Rightarrow> (real \<Rightarrow> real \<Rightarrow> real) \<Rightarrow> pyval \<Rightarrow> pyval \<Rightarrow> pyval" where
  "arith fi fr a b =
     (if is_float a \<or> is_float b then VFloat (fr (as_real a) (as_real b))
      else VInt (fi (as_int a) (as_int b)))"

definition py_add :: "pyval \<Rightarrow> pyval \<Rightarrow> pyval" where
  "py_add = arith (+) (+)"

definition py_sub :: "pyval \<Rightarrow> pyval \<Rightarrow> pyval" where
  "py_sub = arith (-) (-)"

definition py_mul :: "pyval \<Rightarrow> pyval \<Rightarrow> pyval" where
  "py_mul = arith (*) (*)"

definition py_div :: "pyval \<Rightarrow> pyval \<Rightarrow> error + pyval" where
  "py_div a b = (if as_real b = 0 then Inl ZeroDivisionError else Inr (arith (div) (/) a b))"

definition py_abs :: "pyval \<Rightarrow> pyval" where
  "py_abs a = (if is_float a then VFloat \<bar>as_real a\<bar> else VInt \<bar>as_int a\<bar>)"

definition py_lt :: "pyval \<Rightarrow> pyval \<Rightarrow> bool" where
  "py_lt a b = (as_real a < as_real b)"

definition py_eq :: "pyval \<Rightarrow> pyval \<Rightarrow> bool" where
  "py_eq a b = (as_real a = as_real b)"

text \<open>\<^verbatim>\<open>min(a, b)\<close> keeps its first argument unless the second is smaller.\<close>

definition py_min :: "pyval \<Rightarrow> pyval \<Rightarrow> pyval" where
  "py_min a b = (if py_lt b a then b else a)"

section \<open>Parameter sets and constraints\<close>

text \<open>
  A parameter set is a dict from parameter name to value, kept as an association list with
  distinct keys.  \<^verbatim>\<open>params[k]\<close> raises \<^verbatim>\<open>KeyError\<close> on a missing key.
\<close>

type_synonym params = "(string \<times> pyval) list"

definition getitem :: "params \<Rightarrow> string \<Rightarrow> error + pyval" where
  "getitem d k = (case map_of d k of None \<Rightarrow> Inl (KeyError (StrKey k)) | Some v \<Rightarrow> Inr v)"

fun setitem :: "params \<Rightarrow> string \<Rightarrow> pyval \<Rightarrow> params" where
  "setitem [] k v = [(k, v)]"
| "setitem (kv # d) k v = (if fst kv = k then (k, v) # d else kv # setitem d k v)"

text \<open>
  A constraint dict with \<^verbatim>\<open>"type"\<close> one of max, min, best is \<open>Bound kind param min max
  score\<close>, the target \<^verbatim>\<open>"value"\<close> of a best constraint being part of the kind; one
  with type ratio is \<open>Ratio param1 param2 min max ratio score\<close>.  The keys
  \<^verbatim>\<open>"min"\<close> and \<^verbatim>\<open>"max"\<close> are the ones the code tests with \<^verbatim>\<open>in\<close>, so they are
  optional; the others are present.
\<close>

datatype kind = KMax | KMin | KBest pyval

datatype constraint =
    Bound kind string "pyval option" "pyval option" pyval
  | Ratio string string "pyval option" "pyval option" pyval pyval

text \<open>\<^verbatim>\<open>"min" in cons and val < cons["min"]\<close> and \<^verbatim>\<open>"max" in cons and val > cons["max"]\<close>\<close>

definition below_min :: "pyval option \<Rightarrow> pyval \<Rightarrow> bool" where
  "below_min lo val = (case lo of None \<Rightarrow> False | Some m \<Rightarrow> py_lt val m)"

definition above_max :: "pyval option \<Rightarrow> pyval \<Rightarrow> bool" where
  "above_max hi val = (case hi of None \<Rightarrow> False | Some m \<Rightarrow> py_lt m val)"

text \<open>One iteration of the loop of \<^verbatim>\<open>Switch.constraints_met\<close>; \<open>False\<close> is the early
  \<^verbatim>\<open>return False\<close>.\<close>

fun constraint_met :: "constraint \<Rightarrow> params \<Rightarrow> error + bool" where
  "constraint_met (Bound k p lo hi w) params =
     bind (getitem params p) (\<lambda>val.
       if below_min lo val then Inr False
       else if above_max hi val then Inr False
       else Inr True)"
| "constraint_met (Ratio p1 p2 lo hi r w) params =
     bind (getitem params p1) (\<lambda>v1.
     bind (getitem params p2) (\<lambda>v2.
     bind (py_div (py_mul v2 (VFloat 1)) v1) (\<lambda>ratio.
       if below_min lo ratio then Inr False
       else if above_max hi ratio then Inr False
       else Inr True)))"

fun constraints_met :: "constraint list \<Rightarrow> params \<Rightarrow> error + bool" where
  "constraints_met [] params = Inr True"
| "constraints_met (cons # constraints) params =
     bind (constraint_met cons params) (\<lambda>ok.
       if ok then constraints_met constraints params else Inr False)"

text \<open>One iteration of the loop of \<^verbatim>\<open>Switch.score\<close>, on the running score.\<close>

fun score_step :: "constraint \<Rightarrow> params \<Rightarrow> pyval \<Rightarrow> error + pyval" where
  "score_step (Bound k p lo hi w) params sc =
     bind (getitem params p) (\<lambda>val.
       case k of
         KMax \<Rightarrow> Inr (py_add sc (py_mul val w))
       | KMin \<Rightarrow> Inr (py_sub sc (py_mul val w))
       | KBest tgt \<Rightarrow>
           (case tgt of
              VBool b \<Rightarrow> Inr (py_add sc (if py_eq val tgt then w else VInt 0))
            | _ \<Rightarrow> Inr (py_add sc (py_mul (py_abs (py_sub val tgt)) w))))"
| "score_step (Ratio p1 p2 lo hi r w) params sc =
     bind (getitem params p1) (\<lambda>v1.
     bind (getitem params p2) (\<lambda>v2.
     bind (py_div v2 v1) (\<lambda>ratio.
       Inr (py_sub sc (py_mul (py_abs (py_sub ratio r)) w)))))"

fun score_loop :: "constraint list \<Rightarrow> params \<Rightarrow> pyval \<Rightarrow> error + pyval" where
  "score_loop [] params sc = Inr sc"
| "score_loop (cons # constraints) params sc =
     bind (score_step cons params sc) (score_loop constraints params)"

definition score :: "constraint list \<Rightarrow> params \<Rightarrow> error + pyval" where
  "score constraints params = score_loop constraints params (VInt 0)"


section \<open>Messages and switches\<close>

text \<open>
  A payload is a dict with the keys the handlers read; a missing key is \<open>None\<close> and reading
  it raises \<^verbatim>\<open>KeyError\<close>.  A response is the pair of response kind and payload that a
  handler returns; \<^verbatim>\<open>{"params": None}\<close> is \<open>ttp_query_resp None\<close>.
\<close>

record payload =
  versions :: "string list option"
  ttp_name :: "string option"
  ttp_version :: "string option"
  param_constraints :: "constraint list option"

datatype response =
    ttp_version_resp string
  | list_ttps_resp "(string \<times> string) list"
  | ttp_query_resp "params option"
  | ttp_query_resp_err string

text \<open>
  The three classes and what an instance holds: the class attributes.  No method assigns
  to any of them.
\<close>

datatype switch_class = Switch | SimpleIPv4Switch | VariableIPv4Switch

record switch =
  cls :: switch_class
  VERSIONS_SUPPORTED :: "string list"
  TTPS_SUPPORTED :: "(string \<times> string) list"
  PARAM_SETS :: "((string \<times> string) \<times> params list) list"

definition new_Switch :: switch where
  "new_Switch = \<lparr>cls = Switch, VERSIONS_SUPPORTED = [''1.0''], TTPS_SUPPORTED = [],
     PARAM_SETS = []\<rparr>"

definition new_SimpleIPv4Switch :: switch where
  "new_SimpleIPv4Switch =
     \<lparr>cls = SimpleIPv4Switch,
      VERSIONS_SUPPORTED = [''1.0''],
      TTPS_SUPPORTED = [(''org.opennetworking/ttps/IPV4'', ''2.0''),
                        (''org.opennetworking/ttps/IPV4'', ''1.0''),
                        (''com.metaswitch/ttps/PrivateSwitch'', ''2.0'')],
      PARAM_SETS =
        [((''org.opennetworking/ttps/IPV4'', ''1.0''),
          [[(''IPV4 table size'', VInt 1000), (''MAC table size'', VInt 10000)],
           [(''IPV4 table size'', VInt 5000), (''MAC table size'', VInt 5000)],
           [(''IPV4 table size'', VInt 10000), (''MAC table size'', VInt 2000)]]),
         ((''org.opennetworking/ttps/IPV4'', ''2.0''),
          [[(''IPV4 table size'', VInt 1000), (''MAC table size'', VInt 10000),
            (''Feature X'', VBool True)],
           [(''IPV4 table size'', VInt 5000), (''MAC table size'', VInt 5000),
            (''Feature X'', VBool False)],
           [(''IPV4 table size'', VInt 4000), (''MAC table size'', VInt 4000),
            (''Feature X'', VBool True)],
           [(''IPV4 table size'', VInt 10000), (''MAC table size'', VInt 2000),
            (''Feature X'', VBool True)]])]\<rparr>"

definition new_VariableIPv4Switch :: switch where
  "new_VariableIPv4Switch =
     \<lparr>cls = VariableIPv4Switch,
      VERSIONS_SUPPORTED = [''1.0''],
      TTPS_SUPPORTED = [(''org.opennetworking/ttps/IPV4'', ''1.0'')],
      PARAM_SETS = []\<rparr>"

subsection \<open>\<^verbatim>\<open>Switch.on_ttp_begin\<close> and \<^verbatim>\<open>Switch.on_list_ttps\<close>\<close>

text \<open>
  The two sets of version tuples are lists without duplicates; the order in which Python
  lists the intersection is not fixed, the sort removes the dependence on it.
  \<^verbatim>\<open>shared_versions[0]\<close> raises \<^verbatim>\<open>IndexError\<close> on the empty list.
\<close>

definition on_ttp_begin :: "switch \<Rightarrow> payload \<Rightarrow> error + response" where
  "on_ttp_begin self msg =
     (let our_versions = remdups (map parse_version (VERSIONS_SUPPORTED self)) in
      case versions msg of
        None \<Rightarrow> Inl (KeyError (StrKey ''versions''))
      | Some vs \<Rightarrow>
          (let their_versions = remdups (map parse_version vs);
               shared_versions = filter (\<lambda>v. v \<in> set their_versions) our_versions
           in case sort_reverse (<) shared_versions of
                [] \<Rightarrow> Inl IndexError
              | v # rest \<Rightarrow> Inr (ttp_version_resp (format_version v))))"

definition on_list_ttps :: "switch \<Rightarrow> payload \<Rightarrow> error + response" where
  "on_list_ttps self msg = Inr (list_ttps_resp (TTPS_SUPPORTED self))"

subsection \<open>\<^verbatim>\<open>SimpleIPv4Switch.on_ttp_query\<close>\<close>

text \<open>
  The sort compares the tuples \<^verbatim>\<open>(score, params)\<close>: by score first and, when the scores
  are equal, by the parameter dicts.  Python 2 orders dicts by length, then by the smallest
  key at which they differ, then by the values at that key.
\<close>

definition differs :: "params \<Rightarrow> string \<times> pyval \<Rightarrow> bool" where
  "differs b kv = (case map_of b (fst kv) of None \<Rightarrow> True | Some w \<Rightarrow> \<not> py_eq (snd kv) w)"

definition characterize :: "params \<Rightarrow> params \<Rightarrow> (string \<times> pyval) option" where
  "characterize a b =
     (case filter (differs b) a of
        [] \<Rightarrow> None
      | kv # rest \<Rightarrow> Some (foldl (\<lambda>m y. if fst y < fst m then y else m) kv rest))"

definition dict_eq :: "params \<Rightarrow> params \<Rightarrow> bool" where
  "dict_eq a b = (length a = length b \<and> characterize a b = None)"

definition dict_less :: "params \<Rightarrow> params \<Rightarrow> bool" where
  "dict_less a b =
     (if length a \<noteq> length b then length a < length b
      else case characterize a b of
             None \<Rightarrow> False
           | Some adiff \<Rightarrow>
               (case characterize b a of
                  None \<Rightarrow> False
                | Some bdiff \<Rightarrow>
                    if fst adiff \<noteq> fst bdiff then fst adiff < fst bdiff
                    else py_lt (snd adiff) (snd bdiff)))"

definition scored_less :: "pyval \<times> params \<Rightarrow> pyval \<times> params \<Rightarrow> bool" where
  "scored_less x y =
     (if \<not> py_eq (fst x) (fst y) then py_lt (fst x) (fst y)
      else if \<not> dict_eq (snd x) (snd y) then dict_less (snd x) (snd y)
      else False)"

text \<open>The two list comprehensions; an exception in one element ends the comprehension.\<close>

fun available :: "constraint list \<Rightarrow> params list \<Rightarrow> error + params list" where
  "available cons [] = Inr []"
| "available cons (p # ps) =
     bind (constraints_met cons p) (\<lambda>met.
     bind (available cons ps) (\<lambda>rest.
       Inr (if met then p # rest else rest)))"

fun scored :: "constraint list \<Rightarrow> params list \<Rightarrow> error + (pyval \<times> params) list" where
  "scored cons [] = Inr []"
| "scored cons (p # ps) =
     bind (score cons p) (\<lambda>sc.
     bind (scored cons ps) (\<lambda>rest.
       Inr ((sc, p) # rest)))"

definition simple_on_ttp_query :: "switch \<Rightarrow> payload \<Rightarrow> error + response" where
  "simple_on_ttp_query self msg =
     (case ttp_name msg of None \<Rightarrow> Inl (KeyError (StrKey ''ttp_name'')) | Some name \<Rightarrow>
      case ttp_version msg of None \<Rightarrow> Inl (KeyError (StrKey ''ttp_version'')) | Some ver \<Rightarrow>
      case param_constraints msg of
        None \<Rightarrow> Inl (KeyError (StrKey ''param_constraints''))
      | Some cons \<Rightarrow>
      case map_of (PARAM_SETS self) (name, ver) of
        None \<Rightarrow> Inl (KeyError (TtpKey name ver))
      | Some sets \<Rightarrow>
          bind (available cons sets) (\<lambda>available_params.
          bind (scored cons available_params) (\<lambda>scored_params.
            case sort_reverse scored_less scored_params of
              [] \<Rightarrow> Inr (ttp_query_resp_err ''No match'')
            | best # rest \<Rightarrow> Inr (ttp_query_resp (Some (snd best))))))"

subsection \<open>\<^verbatim>\<open>VariableIPv4Switch\<close>\<close>

text \<open>One iteration of the loop of \<^verbatim>\<open>apply_constraints\<close>; the dict is updated in
  place, so the iteration returns the updated dict.\<close>

fun apply_constraint :: "constraint \<Rightarrow> params \<Rightarrow> error + params" where
  "apply_constraint (Bound k p lo hi w) params =
     bind (case hi of
             None \<Rightarrow> Inr params
           | Some mx \<Rightarrow> bind (getitem params p) (\<lambda>v. Inr (setitem params p (py_min mx v))))
       (\<lambda>params.
          case k of
            KBest tgt \<Rightarrow>
              bind (getitem params p) (\<lambda>v.
                Inr (if py_lt tgt v then setitem params p tgt else params))
          | _ \<Rightarrow> Inr params)"
| "apply_constraint (Ratio p1 p2 lo hi r w) params =
     bind (getitem params p1) (\<lambda>v1.
     bind (getitem params p2) (\<lambda>v2.
     bind (case hi of
             None \<Rightarrow> Inr params
           | Some mx \<Rightarrow>
               bind (py_div v1 mx) (\<lambda>max_v2. Inr (setitem params p2 (py_min v2 max_v2))))
       (\<lambda>params.
          case lo of
            None \<Rightarrow> Inr params
          | Some mn \<Rightarrow>
              (case hi of
                 None \<Rightarrow> Inl (KeyError (StrKey ''max''))
               | Some mx \<Rightarrow> Inr (setitem params p1 (py_min v1 (py_mul v2 mx)))))))"

fun apply_constraints :: "constraint list \<Rightarrow> params \<Rightarrow> error + params" where
  "apply_constraints [] params = Inr params"
| "apply_constraints (cons # constraints) params =
     bind (apply_constraint cons params) (apply_constraints constraints)"

text \<open>The loop of \<^verbatim>\<open>VariableIPv4Switch.on_ttp_query\<close> over the values of
  \<^verbatim>\<open>num_macs\<close>, on the pair \<^verbatim>\<open>(best_score, best_params)\<close>.\<close>

fun query_loop ::
  "constraint list \<Rightarrow> int list \<Rightarrow> pyval option \<times> params option
     \<Rightarrow> error + (pyval option \<times> params option)" where
  "query_loop cons [] best = Inr best"
| "query_loop cons (num_macs # later) best =
     (let num_ips = 10000 - num_macs;
          params = [(''IPV4 table size'', VInt num_ips), (''MAC table size'', VInt num_macs)]
      in bind (apply_constraints cons params) (\<lambda>params.
         bind (constraints_met cons params) (\<lambda>met.
           if met then
             bind (score cons params) (\<lambda>sc.
               if (case fst best of None \<Rightarrow> True | Some best_score \<Rightarrow> py_lt best_score sc)
               then query_loop cons later (Some sc, Some params)
               else query_loop cons later best)
           else query_loop cons later best)))"

text \<open>\<^verbatim>\<open>xrange(0, 10000, 100)\<close>\<close>

definition num_macs_range :: "int list" where
  "num_macs_range = map (\<lambda>i. 100 * int i) [0..<100]"

definition variable_on_ttp_query :: "switch \<Rightarrow> payload \<Rightarrow> error + response" where
  "variable_on_ttp_query self msg =
     (case param_constraints msg of
        None \<Rightarrow> Inl (KeyError (StrKey ''param_constraints''))
      | Some cons \<Rightarrow>
          bind (query_loop cons num_macs_range (None, None)) (\<lambda>best.
            Inr (ttp_query_resp (snd best))))"

subsection \<open>\<^verbatim>\<open>Switch.handle_msg\<close>\<close>

text \<open>
  \<^verbatim>\<open>getattr(self, "on_" + msg_type)\<close> finds the method of that name in the class of
  \<open>self\<close> or raises \<^verbatim>\<open>AttributeError\<close>, which the \<^verbatim>\<open>except KeyError\<close> clause does
  not catch.  The base class has no \<^verbatim>\<open>on_ttp_query\<close>.  The result is paired with the
  switch as the call leaves it.
\<close>

definition getattr :: "switch \<Rightarrow> string \<Rightarrow> error + (switch \<Rightarrow> payload \<Rightarrow> error + response)" where
  "getattr self name =
     (if name = ''on_ttp_begin'' then Inr on_ttp_begin
      else if name = ''on_list_ttps'' then Inr on_list_ttps
      else if name = ''on_ttp_query'' \<and> cls self = SimpleIPv4Switch then Inr simple_on_ttp_query
      else if name = ''on_ttp_query'' \<and> cls self = VariableIPv4Switch
        then Inr variable_on_ttp_query
      else Inl (AttributeError name))"

definition handle_msg :: "switch \<Rightarrow> string \<Rightarrow> payload \<Rightarrow> (error + response) \<times> switch" where
  "handle_msg self msg_type payload =
     (case getattr self (''on_'' @ msg_type) of
        Inl e \<Rightarrow> (Inl e, self)
      | Inr method \<Rightarrow> (method self payload, self))"

subsection \<open>The controller's constraints\<close>

text \<open>The \<^verbatim>\<open>param_constraints\<close> that \<^verbatim>\<open>OFCP.negotiate_ipv4\<close> builds for a TTP
  version.\<close>

definition negotiate_ipv4_constraints :: "string \<Rightarrow> constraint list" where
  "negotiate_ipv4_constraints ver =
     [Bound KMax ''IPV4 table size'' (Some (VInt 3000)) (Some (VInt 10000)) (VInt 11),
      Bound (KBest (VInt 6000)) ''MAC table size'' (Some (VInt 3000)) (Some (VInt 7000))
        (VInt 10),
      Ratio ''IPV4 table size'' ''MAC table size'' (Some (VFloat 0.8)) (Some (VFloat 1.2))
        (VFloat 1.1) (VInt 9000)]
     @ (if ver = ''2.0''
        then [Bound (KBest (VBool True)) ''Feature X'' None None (VInt 1001)]
        else [])"

text \<open>The payload of a \<^verbatim>\<open>ttp_query\<close> as \<^verbatim>\<open>OFCP.negotiate_ipv4\<close> builds it, and the
  three candidates of the catalog entry for version 1.0.\<close>

definition negotiation_msg :: "string \<Rightarrow> string \<Rightarrow> constraint list \<Rightarrow> payload" where
  "negotiation_msg name ver cons =
     \<lparr>versions = None, ttp_name = Some name, ttp_version = Some ver,
      param_constraints = Some cons\<rparr>"


abbreviation balanced :: params where
  "balanced \<equiv> [(''IPV4 table size'', VInt 5000), (''MAC table size'', VInt 5000)]"

abbreviation ip_heavy :: params where
  "ip_heavy \<equiv> [(''IPV4 table size'', VInt 10000), (''MAC table size'', VInt 2000)]"

section \<open>Notions used in the statements\<close>

text \<open>
  A canonical decimal integer is what \<^verbatim>\<open>str\<close> prints: no leading zero, no plus sign,
  a minus sign only before a non-zero number.  A token is a part with a character that no
  integer literal contains.  \<open>spec_component\<close> is a part made of letters and digits.
\<close>

definition canonical_nat :: "string \<Rightarrow> bool" where
  "canonical_nat ds = (ds \<noteq> [] \<and> list_all is_digit ds \<and> (ds = ''0'' \<or> hd ds \<noteq> CHR ''0''))"

definition canonical_int :: "string \<Rightarrow> bool" where
  "canonical_int c =
     (canonical_nat c \<or> (c \<noteq> [] \<and> hd c = CHR ''-'' \<and> canonical_nat (tl c) \<and> tl c \<noteq> ''0''))"

definition is_token :: "string \<Rightarrow> bool" where
  "is_token c =
     list_ex (\<lambda>ch. \<not> is_digit ch \<and> \<not> is_space ch \<and> ch \<noteq> CHR ''+'' \<and> ch \<noteq> CHR ''-'') c"

definition is_alnum :: "char \<Rightarrow> bool" where
  "is_alnum c =
     (is_digit c \<or> (CHR ''a'' \<le> c \<and> c \<le> CHR ''z'') \<or> (CHR ''A'' \<le> c \<and> c \<le> CHR ''Z''))"

definition spec_component :: "string \<Rightarrow> bool" where
  "spec_component c = (c \<noteq> [] \<and> list_all is_alnum c)"

text \<open>
  The feasibility rule in the words of the specification, on real values.  A constraint is
  \<open>evaluable\<close> on a parameter set when the parameters it names are present and, for a
  ratio, the denominator is not zero; \<open>rejects\<close> is only meaningful then.
\<close>

definition value_of :: "params \<Rightarrow> string \<Rightarrow> real" where
  "value_of ps p = (case map_of ps p of None \<Rightarrow> 0 | Some v \<Rightarrow> as_real v)"





text \<open>
  The score in the words of the specification: the sum of one term for each constraint, the
  ratio being the real quotient of the two values.
\<close>

fun spec_score_term :: "constraint \<Rightarrow> params \<Rightarrow> real" where
  "spec_score_term (Bound KMax p lo hi w) ps = value_of ps p * as_real w"
| "spec_score_term (Bound KMin p lo hi w) ps = - (value_of ps p * as_real w)"
| "spec_score_term (Bound (KBest (VBool b)) p lo hi w) ps =
     (if value_of ps p = as_real (VBool b) then as_real w else 0)"
| "spec_score_term (Bound (KBest tgt) p lo hi w) ps = \<bar>value_of ps p - as_real tgt\<bar> * as_real w"
| "spec_score_term (Ratio p1 p2 lo hi r w) ps =
     - (\<bar>value_of ps p2 / value_of ps p1 - as_real r\<bar> * as_real w)"

definition spec_score :: "constraint list \<Rightarrow> params \<Rightarrow> real" where
  "spec_score cs ps = sum_list (map (\<lambda>c. spec_score_term c ps) cs)"

text \<open>\<open>shrinks a b\<close>: the dict \<open>a\<close> has the keys of \<open>b\<close>, each with a value that is not
  greater.\<close>

definition shrinks :: "params \<Rightarrow> params \<Rightarrow> bool" where
  "shrinks a b =
     (\<forall>k. case map_of b k of
            None \<Rightarrow> map_of a k = None
          | Some v \<Rightarrow> (\<exists>v'. map_of a k = Some v' \<and> as_real v' \<le> as_real v))"

section \<open>Properties\<close>

subsection \<open>Versions\<close>

lemma split_dot_nonempty: "split_dot s \<noteq> []"
  by (induction s) auto

lemma join_dot_Cons: "xs \<noteq> [] \<Longrightarrow> join_dot (x # xs) = x @ CHR ''.'' # join_dot xs"
  by (cases xs) auto

lemma join_dot_Cons_hd: "xs \<noteq> [] \<Longrightarrow> join_dot ((c # hd xs) # tl xs) = c # join_dot xs"
  by (cases xs rule: join_dot.cases) auto

lemma join_split_dot: "join_dot (split_dot s) = s"
  by (induction s) (auto simp: split_dot_nonempty join_dot_Cons join_dot_Cons_hd)

lemma digit_char_val: "is_digit c \<Longrightarrow> digit_char (digit_val c) = c"
  by (auto simp: is_digit_def digit_char_def digit_val_def)

lemma digit_val_lt: "is_digit c \<Longrightarrow> digit_val c < 10"
  by (auto simp: is_digit_def digit_val_def)

lemma digit_val_pos: "is_digit c \<Longrightarrow> c \<noteq> CHR ''0'' \<Longrightarrow> 0 < digit_val c"
  by (auto simp: is_digit_def digit_val_def)

lemma digits_to_nat_snoc: "digits_to_nat (ds @ [d]) = 10 * digits_to_nat ds + digit_val d"
  by (simp add: digits_to_nat_def)

lemma digits_to_nat_pos:
  "ds \<noteq> [] \<Longrightarrow> list_all is_digit ds \<Longrightarrow> hd ds \<noteq> CHR ''0'' \<Longrightarrow> 0 < digits_to_nat ds"
proof (induction ds rule: rev_induct)
  case Nil
  then show ?case by simp
next
  case (snoc d ds)
  show ?case
  proof (cases "ds = []")
    case True
    with snoc.prems show ?thesis
      by (simp add: digits_to_nat_def digit_val_pos)
  next
    case False
    with snoc have "0 < digits_to_nat ds" by simp
    then show ?thesis by (simp add: digits_to_nat_snoc)
  qed
qed

lemma nat_to_digits_inverse:
  "ds \<noteq> [] \<Longrightarrow> list_all is_digit ds \<Longrightarrow> (ds = ''0'' \<or> hd ds \<noteq> CHR ''0'')
     \<Longrightarrow> nat_to_digits (digits_to_nat ds) = ds"
proof (induction ds rule: rev_induct)
  case Nil
  then show ?case by simp
next
  case (snoc d ds)
  have d: "is_digit d" using snoc.prems by simp
  show ?case
  proof (cases "ds = []")
    case True
    then show ?thesis
      using d digit_val_lt [OF d]
      by (simp add: digits_to_nat_def digit_char_val nat_to_digits.simps)
  next
    case False
    with snoc.prems have nz: "hd ds \<noteq> CHR ''0''" and all: "list_all is_digit ds"
      by (cases ds; auto)+
    from False all nz have pos: "0 < digits_to_nat ds" by (rule digits_to_nat_pos)
    have ih: "nat_to_digits (digits_to_nat ds) = ds" using snoc.IH False all nz by simp
    have ge: "\<not> 10 * digits_to_nat ds + digit_val d < 10" using pos by simp
    have dv: "(10 * digits_to_nat ds + digit_val d) div 10 = digits_to_nat ds"
      using digit_val_lt [OF d] by simp
    have md: "(10 * digits_to_nat ds + digit_val d) mod 10 = digit_val d"
      using digit_val_lt [OF d] by simp
    show ?thesis
      unfolding digits_to_nat_snoc
      by (subst nat_to_digits.simps) (simp only: ge if_False dv md ih digit_char_val [OF d])
  qed
qed

lemma digit_not_space: "is_digit c \<Longrightarrow> \<not> is_space c"
  by (auto simp: is_digit_def is_space_def)

lemma digit_not_sign: "is_digit c \<Longrightarrow> c \<noteq> CHR ''-'' \<and> c \<noteq> CHR ''+''"
  by (auto simp: is_digit_def)

lemma py_int_digits:
  assumes "ds \<noteq> []" "list_all is_digit ds"
  shows "py_int ds = Some (int (digits_to_nat ds))"
proof -
  obtain d r where ds: "ds = d # r" using assms(1) by (cases ds) auto
  have d: "is_digit d" using assms(2) ds by simp
  have all: "\<forall>x\<in>set ds. is_digit x" using assms(2) by (simp add: list_all_iff)
  have t: "dropWhile is_space ds = ds" using d ds digit_not_space by simp
  have tk: "takeWhile is_digit ds = ds" using all by (simp add: takeWhile_eq_all_conv)
  have dr: "dropWhile is_digit ds = []" using all by simp
  show ?thesis
    using digit_not_sign [OF d] assms(1)
    by (simp add: py_int_def t Let_def ds [symmetric] tk dr) (simp add: ds)
qed

lemma py_int_neg_digits:
  assumes "ds \<noteq> []" "list_all is_digit ds"
  shows "py_int (CHR ''-'' # ds) = Some (- int (digits_to_nat ds))"
proof -
  have all: "\<forall>x\<in>set ds. is_digit x" using assms(2) by (simp add: list_all_iff)
  have tk: "takeWhile is_digit ds = ds" using all by (simp add: takeWhile_eq_all_conv)
  have dr: "dropWhile is_digit ds = []" using all by simp
  have sp: "\<not> is_space CHR ''-''" by (simp add: is_space_def)
  show ?thesis
    using assms(1) by (simp add: py_int_def sp Let_def tk dr)
qed

lemma canonical_int_round_trip: "canonical_int c \<Longrightarrow> str_part (parse_part c) = c"
proof -
  assume "canonical_int c"
  then consider (pos) "canonical_nat c"
    | (neg) ds where "c = CHR ''-'' # ds" "canonical_nat ds" "ds \<noteq> ''0''"
    unfolding canonical_int_def by (cases c) auto
  then show ?thesis
  proof cases
    case pos
    then show ?thesis
      unfolding canonical_nat_def
      by (simp add: parse_part_def py_int_digits py_str_int_def nat_to_digits_inverse)
  next
    case neg
    then have nz: "hd ds \<noteq> CHR ''0''" and ne: "ds \<noteq> []" and all: "list_all is_digit ds"
      unfolding canonical_nat_def by auto
    have "0 < digits_to_nat ds" using ne all nz by (rule digits_to_nat_pos)
    then show ?thesis
      using neg ne all nz
      by (simp add: parse_part_def py_int_neg_digits py_str_int_def nat_to_digits_inverse)
  qed
qed

lemma py_int_Some_chars:
  assumes "py_int c = Some n"
  shows "\<forall>ch\<in>set c. is_digit ch \<or> is_space ch \<or> ch = CHR ''+'' \<or> ch = CHR ''-''"
proof
  fix ch assume ch: "ch \<in> set c"
  define t where "t = dropWhile is_space c"
  define u where "u = (if t \<noteq> [] \<and> (hd t = CHR ''-'' \<or> hd t = CHR ''+'') then tl t else t)"
  have rest: "list_all is_space (dropWhile is_digit u)"
    using assms unfolding py_int_def t_def u_def Let_def by (auto split: if_splits)
  have c: "c = takeWhile is_space c @ t" by (simp add: t_def)
  have u: "u = takeWhile is_digit u @ dropWhile is_digit u" by simp
  have "ch \<in> set (takeWhile is_space c) \<or> ch \<in> set t" using ch c by (metis Un_iff set_append)
  then show "is_digit ch \<or> is_space ch \<or> ch = CHR ''+'' \<or> ch = CHR ''-''"
  proof
    assume "ch \<in> set (takeWhile is_space c)"
    then show ?thesis by (auto dest: set_takeWhileD)
  next
    assume a: "ch \<in> set t"
    have "ch = CHR ''+'' \<or> ch = CHR ''-'' \<or> ch \<in> set u"
      using a unfolding u_def by (cases t) (auto split: if_splits)
    moreover have "ch \<in> set u \<Longrightarrow> is_digit ch \<or> is_space ch"
    proof -
      assume "ch \<in> set u"
      then have "ch \<in> set (takeWhile is_digit u) \<or> ch \<in> set (dropWhile is_digit u)"
        using u by (metis Un_iff set_append)
      then show ?thesis using rest by (auto dest: set_takeWhileD simp: list_all_iff)
    qed
    ultimately show ?thesis by auto
  qed
qed

lemma token_retained: "is_token c \<Longrightarrow> parse_part c = PStr c"
  using py_int_Some_chars [of c]
  by (cases "py_int c") (auto simp: parse_part_def is_token_def list_ex_iff)

lemma empty_retained: "parse_part [] = PStr []"
  by (simp add: parse_part_def py_int_def)

lemma format_parse_version:
  "\<forall>c\<in>set (split_dot s). str_part (parse_part c) = c \<Longrightarrow> format_version (parse_version s) = s"
proof -
  assume "\<forall>c\<in>set (split_dot s). str_part (parse_part c) = c"
  then have "map str_part (map parse_part (split_dot s)) = split_dot s"
    by (simp add: map_idI)
  then show ?thesis by (simp add: format_version_def parse_version_def join_split_dot)
qed

text \<open>
  C7 (as amended).  For a version string whose dot-separated parts are each empty, a token
  (a part with a character other than digits, signs and whitespace, such as any
  alphanumeric part with a letter) or a canonical decimal integer,
  \<open>format_version (parse_version s) = s\<close>, and the empty parts and the tokens are kept as
  strings.  \<open>parse_version\<close> is a total function: it raises on no string.
\<close>

theorem version_round_trip:
  assumes "\<forall>c\<in>set (split_dot s). c = [] \<or> is_token c \<or> canonical_int c"
  shows "format_version (parse_version s) = s \<and>
         (\<forall>c\<in>set (split_dot s). c = [] \<or> is_token c \<longrightarrow> parse_part c = PStr c)"
proof -
  have "\<forall>c\<in>set (split_dot s). str_part (parse_part c) = c"
    using assms by (auto simp: empty_retained token_retained canonical_int_round_trip)
  then have "format_version (parse_version s) = s" by (rule format_parse_version)
  then show ?thesis by (auto simp: empty_retained token_retained)
qed

theorem version_round_trip_witness:
  "list_all (\<lambda>c. c = [] \<or> is_token c \<or> canonical_int c) (split_dot ''1.2.3.beta'') \<and>
   format_version (parse_version ''1.2.3.beta'') = ''1.2.3.beta'' \<and>
   parse_version ''1.2.3.beta'' = [PInt 1, PInt 2, PInt 3, PStr ''beta'']"
proof -
  have h: "list_all (\<lambda>c. c = [] \<or> is_token c \<or> canonical_int c) (split_dot ''1.2.3.beta'')"
    by code_simp
  then have "\<forall>c\<in>set (split_dot ''1.2.3.beta''). c = [] \<or> is_token c \<or> canonical_int c"
    by (simp only: list_all_iff)
  from version_round_trip [OF this]
  have "format_version (parse_version ''1.2.3.beta'') = ''1.2.3.beta''" by blast
  moreover have "parse_version ''1.2.3.beta'' = [PInt 1, PInt 2, PInt 3, PStr ''beta'']"
    by code_simp
  ultimately show ?thesis using h by blast
qed

text \<open>
  The round trip as C7 states it fails on a part with a leading zero: \<open>''1.01''\<close> is made
  of the integer parts \<open>''1''\<close> and \<open>''01''\<close> and comes back as \<open>''1.1''\<close>.
\<close>

theorem version_round_trip_counterexample:
  "list_all spec_component (split_dot ''1.01'') \<and>
   format_version (parse_version ''1.01'') = ''1.1'' \<and>
   format_version (parse_version ''1.01'') \<noteq> ''1.01''"
  by code_simp

subsection \<open>Sorting and version negotiation\<close>

lemma set_insert_desc: "set (insert_desc lt x ys) = insert x (set ys)"
  by (induction ys) auto

lemma sort_reverse_Cons: "sort_reverse lt (x # xs) = insert_desc lt x (sort_reverse lt xs)"
  by (simp add: sort_reverse_def)

lemma set_sort_reverse: "set (sort_reverse lt xs) = set xs"
  by (induction xs) (simp_all add: sort_reverse_def set_insert_desc)

lemma hd_insert_desc_greatest:
  fixes f :: "'a \<Rightarrow> 'b::linorder"
  assumes lt: "\<And>a b. lt a b \<Longrightarrow> f a \<le> f b" and nlt: "\<And>a b. \<not> lt a b \<Longrightarrow> f b \<le> f a"
    and ys: "\<forall>y\<in>set ys. f y \<le> f (hd ys)"
  shows "\<forall>y\<in>set (insert_desc lt x ys). f y \<le> f (hd (insert_desc lt x ys))"
proof (cases ys)
  case Nil
  then show ?thesis by simp
next
  case (Cons y ys')
  show ?thesis
  proof (cases "lt x y")
    case True
    then show ?thesis using Cons ys lt [OF True] by (auto simp: set_insert_desc)
  next
    case False
    have "f y \<le> f x" using nlt [OF False] .
    then show ?thesis using Cons ys False by (auto intro: order_trans)
  qed
qed

lemma hd_sort_reverse_greatest:
  fixes f :: "'a \<Rightarrow> 'b::linorder"
  assumes lt: "\<And>a b. lt a b \<Longrightarrow> f a \<le> f b" and nlt: "\<And>a b. \<not> lt a b \<Longrightarrow> f b \<le> f a"
  shows "\<forall>y\<in>set (sort_reverse lt xs). f y \<le> f (hd (sort_reverse lt xs))"
proof (induction xs)
  case Nil
  then show ?case by (simp add: sort_reverse_def)
next
  case (Cons x xs)
  show ?case
    unfolding sort_reverse_Cons
    by (rule hd_insert_desc_greatest [OF lt nlt Cons.IH])
qed

lemma sort_reverse_less_hd:
  fixes xs :: "'a::linorder list"
  assumes "sort_reverse (<) xs = v # rest"
  shows "v \<in> set xs \<and> (\<forall>y\<in>set xs. y \<le> v)"
proof -
  have "\<forall>y\<in>set (sort_reverse (<) xs). id y \<le> id (hd (sort_reverse (<) xs))"
    by (rule hd_sort_reverse_greatest) auto
  moreover have "set (sort_reverse (<) xs) = set xs" by (rule set_sort_reverse)
  ultimately show ?thesis using assms by (metis id_apply list.sel(1) list.set_intros(1))
qed

text \<open>
  C5.  \<open>on_ttp_begin\<close> parses the supported and the offered version strings; when the two
  sets of versions share an element the response is \<open>ttp_version_resp\<close> with the greatest
  shared version, formatted; when they share none the handler raises (\<open>IndexError\<close>) and
  returns no response.  Supported 1.0 against offered 1.0, 2.0 gives 1.0; supported
  1.0, 2.0 against offered 1.0, 2.0 gives 2.0.
\<close>

theorem on_ttp_begin_highest_shared:
  assumes "versions msg = Some vs"
  shows "(set (map parse_version (VERSIONS_SUPPORTED self)) \<inter> set (map parse_version vs) \<noteq> {} \<longrightarrow>
           on_ttp_begin self msg =
             Inr (ttp_version_resp (format_version
               (Max (set (map parse_version (VERSIONS_SUPPORTED self)) \<inter> set (map parse_version vs)))))) \<and>
         (set (map parse_version (VERSIONS_SUPPORTED self)) \<inter> set (map parse_version vs) = {} \<longrightarrow>
           on_ttp_begin self msg = Inl IndexError) \<and>
         on_ttp_begin (new_Switch\<lparr>VERSIONS_SUPPORTED := [''1.0'']\<rparr>)
             \<lparr>versions = Some [''1.0'', ''2.0''], ttp_name = None, ttp_version = None,
              param_constraints = None\<rparr> = Inr (ttp_version_resp ''1.0'') \<and>
         on_ttp_begin (new_Switch\<lparr>VERSIONS_SUPPORTED := [''1.0'', ''2.0'']\<rparr>)
             \<lparr>versions = Some [''1.0'', ''2.0''], ttp_name = None, ttp_version = None,
              param_constraints = None\<rparr> = Inr (ttp_version_resp ''2.0'')"
proof -
  define shared where
    "shared = filter (\<lambda>v. v \<in> set (remdups (map parse_version vs)))
                (remdups (map parse_version (VERSIONS_SUPPORTED self)))"
  have set_shared:
    "set shared = set (map parse_version (VERSIONS_SUPPORTED self)) \<inter> set (map parse_version vs)"
    by (auto simp: shared_def)
  have run: "on_ttp_begin self msg =
      (case sort_reverse (<) shared of [] \<Rightarrow> Inl IndexError
       | v # rest \<Rightarrow> Inr (ttp_version_resp (format_version v)))"
    using assms by (simp add: on_ttp_begin_def shared_def Let_def)
  have empty: "set shared = {} \<Longrightarrow> on_ttp_begin self msg = Inl IndexError"
    by (simp add: run sort_reverse_def)
  have nonempty: "on_ttp_begin self msg = Inr (ttp_version_resp (format_version (Max (set shared))))"
    if ne: "set shared \<noteq> {}"
  proof -
    have "set (sort_reverse (<) shared) \<noteq> {}" using ne by (simp add: set_sort_reverse)
    then obtain v rest where s: "sort_reverse (<) shared = v # rest"
      by (cases "sort_reverse (<) shared") auto
    from sort_reverse_less_hd [OF s] have "Max (set shared) = v"
      by (intro Max_eqI) auto
    then show ?thesis by (simp add: run s)
  qed
  have ex1: "on_ttp_begin (new_Switch\<lparr>VERSIONS_SUPPORTED := [''1.0'']\<rparr>)
             \<lparr>versions = Some [''1.0'', ''2.0''], ttp_name = None, ttp_version = None,
              param_constraints = None\<rparr> = Inr (ttp_version_resp ''1.0'')"
    by code_simp
  have ex2: "on_ttp_begin (new_Switch\<lparr>VERSIONS_SUPPORTED := [''1.0'', ''2.0'']\<rparr>)
             \<lparr>versions = Some [''1.0'', ''2.0''], ttp_name = None, ttp_version = None,
              param_constraints = None\<rparr> = Inr (ttp_version_resp ''2.0'')"
    by code_simp
  show ?thesis using empty nonempty ex1 ex2 unfolding set_shared by blast
qed

theorem on_ttp_begin_highest_shared_witness:
  "versions \<lparr>versions = Some [''1.0'', ''2.0''], ttp_name = None, ttp_version = None,
              param_constraints = None\<rparr> = Some [''1.0'', ''2.0''] \<and>
   set (map parse_version (VERSIONS_SUPPORTED new_Switch)) \<inter> set (map parse_version [''1.0'', ''2.0'']) \<noteq> {} \<and>
   on_ttp_begin new_Switch \<lparr>versions = Some [''1.0'', ''2.0''], ttp_name = None, ttp_version = None,
              param_constraints = None\<rparr> =
     Inr (ttp_version_resp (format_version
        (Max (set (map parse_version (VERSIONS_SUPPORTED new_Switch)) \<inter> set (map parse_version [''1.0'', ''2.0''])))))"
proof -
  have v: "versions \<lparr>versions = Some [''1.0'', ''2.0''], ttp_name = None, ttp_version = None,
              param_constraints = None\<rparr> = Some [''1.0'', ''2.0'']" by simp
  have ne: "set (map parse_version (VERSIONS_SUPPORTED new_Switch)) \<inter> set (map parse_version [''1.0'', ''2.0'']) \<noteq> {}"
    by code_simp
  show ?thesis using on_ttp_begin_highest_shared [OF v, of new_Switch] ne v by blast
qed

subsection \<open>Exceptions and lookups\<close>

lemmas eval_simps =
  negotiate_ipv4_constraints_def negotiation_msg_def getitem_def below_min_def above_max_def
  py_lt_def py_eq_def py_div_def py_mul_def py_sub_def py_add_def py_abs_def py_min_def
  arith_def score_def

lemma bind_Inr [simp]: "bind (Inr x) f = f x"
  by (simp add: bind_def)

lemma bind_Inl [simp]: "bind (Inl e) f = Inl e"
  by (simp add: bind_def)

lemma bind_eq_Inr: "bind m f = Inr y \<longleftrightarrow> (\<exists>x. m = Inr x \<and> f x = Inr y)"
  by (cases m) auto


lemma getitem_Inr: "getitem ps p = Inr v \<longleftrightarrow> map_of ps p = Some v"
  by (simp add: getitem_def split: option.splits)











text \<open>
  C3.  \<open>score\<close> computes the ratio with \<^verbatim>\<open>v2 / v1\<close>, which is floor division on
  integers, where \<open>constraints_met\<close> computes \<^verbatim>\<open>v2 * 1.0 / v1\<close>.  On the catalog's
  IP-heavy candidate and a ratio constraint with target 1 and weight 1 it returns \<open>-1\<close>
  (the ratio is \<open>2000 div 10000 = 0\<close>) where the sum of the specification, with the real
  quotient \<open>0.2\<close>, is \<open>-0.8\<close>.
\<close>

theorem score_ratio_floor_division:
  "score [Ratio ''IPV4 table size'' ''MAC table size'' None None (VInt 1) (VInt 1)] ip_heavy
     = Inr (VInt (- 1)) \<and>
   spec_score [Ratio ''IPV4 table size'' ''MAC table size'' None None (VInt 1) (VInt 1)] ip_heavy
     = - (4 / 5) \<and>
   constraint_met (Ratio ''IPV4 table size'' ''MAC table size'' (Some (VFloat (1 / 5)))
       (Some (VFloat (1 / 5))) (VInt 1) (VInt 1)) ip_heavy = Inr True"
  by (simp add: eval_simps spec_score_def value_of_def)

subsection \<open>The fixed-catalog provider\<close>

lemma available_Inr:
  "available cons ps = Inr av \<Longrightarrow>
     av = filter (\<lambda>p. constraints_met cons p = Inr True) ps \<and>
     (\<forall>p\<in>set ps. \<exists>b. constraints_met cons p = Inr b)"
proof (induction ps arbitrary: av)
  case Nil
  then show ?case by simp
next
  case (Cons p ps)
  from Cons.prems obtain met rest where
    m: "constraints_met cons p = Inr met" and r: "available cons ps = Inr rest"
    and av: "av = (if met then p # rest else rest)"
    by (auto simp: bind_eq_Inr)
  from Cons.IH [OF r] show ?case using m av by auto
qed





lemma scored_Inr:
  "scored cons ps = Inr sp \<Longrightarrow> map snd sp = ps \<and> (\<forall>x\<in>set sp. score cons (snd x) = Inr (fst x))"
proof (induction ps arbitrary: sp)
  case Nil
  then show ?case by simp
next
  case (Cons p ps)
  from Cons.prems obtain sc rest where
    "score cons p = Inr sc" "scored cons ps = Inr rest" "sp = (sc, p) # rest"
    by (auto simp: bind_eq_Inr)
  with Cons.IH [of rest] show ?case by auto
qed




lemma simple_on_ttp_query_unfold:
  assumes "ttp_name msg = Some name" "ttp_version msg = Some ver"
    "param_constraints msg = Some cons"
  shows "simple_on_ttp_query self msg =
     (case map_of (PARAM_SETS self) (name, ver) of
        None \<Rightarrow> Inl (KeyError (TtpKey name ver))
      | Some sets \<Rightarrow>
          bind (available cons sets) (\<lambda>available_params.
          bind (scored cons available_params) (\<lambda>scored_params.
            case sort_reverse scored_less scored_params of
              [] \<Rightarrow> Inr (ttp_query_resp_err ''No match'')
            | best # rest \<Rightarrow> Inr (ttp_query_resp (Some (snd best))))))"
  using assms by (simp add: simple_on_ttp_query_def)






text \<open>
  C10.  A query for a (name, version) pair that is not a key of \<open>PARAM_SETS\<close> raises
  \<open>KeyError\<close> for that pair; the response \<open>ttp_query_resp_err\<close> is returned only for a key
  of the catalog none of whose candidates is feasible.
\<close>

theorem simple_on_ttp_query_unknown_ttp:
  assumes "ttp_name msg = Some name" "ttp_version msg = Some ver"
    "param_constraints msg = Some cons"
  shows "(map_of (PARAM_SETS self) (name, ver) = None \<longrightarrow>
            simple_on_ttp_query self msg = Inl (KeyError (TtpKey name ver))) \<and>
         (simple_on_ttp_query self msg = Inr (ttp_query_resp_err e) \<longrightarrow>
            (\<exists>sets. map_of (PARAM_SETS self) (name, ver) = Some sets \<and>
               (\<forall>p\<in>set sets. constraints_met cons p = Inr False)))"
proof (intro conjI impI)
  assume "map_of (PARAM_SETS self) (name, ver) = None"
  then show "simple_on_ttp_query self msg = Inl (KeyError (TtpKey name ver))"
    by (simp add: simple_on_ttp_query_unfold [OF assms])
next
  assume err: "simple_on_ttp_query self msg = Inr (ttp_query_resp_err e)"
  then obtain sets where sets: "map_of (PARAM_SETS self) (name, ver) = Some sets"
    by (cases "map_of (PARAM_SETS self) (name, ver)")
       (auto simp: simple_on_ttp_query_unfold [OF assms])
  from err sets obtain av sp where av: "available cons sets = Inr av"
    and sp: "scored cons av = Inr sp"
    and res: "(case sort_reverse scored_less sp of
                [] \<Rightarrow> Inr (ttp_query_resp_err ''No match'')
              | best # rest \<Rightarrow> Inr (ttp_query_resp (Some (snd best))))
              = (Inr (ttp_query_resp_err e) :: error + response)"
    by (auto simp: simple_on_ttp_query_unfold [OF assms] bind_eq_Inr)
  from res have "sort_reverse scored_less sp = []" by (auto split: list.splits)
  then have "set sp = {}" using set_sort_reverse [of scored_less sp] by simp
  then have "av = []" using scored_Inr [OF sp] by auto
  have "constraints_met cons p = Inr False" if p: "p \<in> set sets" for p
  proof -
    obtain b where b: "constraints_met cons p = Inr b" using available_Inr [OF av] p by blast
    have "filter (\<lambda>p. constraints_met cons p = Inr True) sets = []"
      using available_Inr [OF av] \<open>av = []\<close> by simp
    then have "constraints_met cons p \<noteq> Inr True"
      using p by (simp add: filter_empty_conv)
    then show ?thesis using b by (cases b) auto
  qed
  then have "\<forall>p\<in>set sets. constraints_met cons p = Inr False" by blast
  then show "\<exists>sets. map_of (PARAM_SETS self) (name, ver) = Some sets \<and>
               (\<forall>p\<in>set sets. constraints_met cons p = Inr False)"
    using sets by blast
qed

theorem simple_on_ttp_query_unknown_ttp_witness:
  "map_of (PARAM_SETS new_SimpleIPv4Switch) (''com.metaswitch/ttps/PrivateSwitch'', ''2.0'')
     = None \<and>
   simple_on_ttp_query new_SimpleIPv4Switch
       (negotiation_msg ''com.metaswitch/ttps/PrivateSwitch'' ''2.0''
          (negotiate_ipv4_constraints ''2.0''))
     = Inl (KeyError (TtpKey ''com.metaswitch/ttps/PrivateSwitch'' ''2.0'')) \<and>
   simple_on_ttp_query new_SimpleIPv4Switch
       (negotiation_msg ''org.opennetworking/ttps/IPV4'' ''1.0''
          [Bound KMax ''MAC table size'' (Some (VInt 20000)) None (VInt 1)])
     = Inr (ttp_query_resp_err ''No match'') \<and>
   (\<exists>sets. map_of (PARAM_SETS new_SimpleIPv4Switch) (''org.opennetworking/ttps/IPV4'', ''1.0'')
        = Some sets \<and>
      list_all (\<lambda>p. constraints_met
          [Bound KMax ''MAC table size'' (Some (VInt 20000)) None (VInt 1)] p = Inr False) sets)"
proof -
  let ?priv = "''com.metaswitch/ttps/PrivateSwitch''"
  let ?name = "''org.opennetworking/ttps/IPV4''"
  let ?no = "[Bound KMax ''MAC table size'' (Some (VInt 20000)) None (VInt 1)]"
  have absent: "map_of (PARAM_SETS new_SimpleIPv4Switch) (?priv, ''2.0'') = None"
    by (simp add: new_SimpleIPv4Switch_def)
  have raised: "simple_on_ttp_query new_SimpleIPv4Switch
        (negotiation_msg ?priv ''2.0'' (negotiate_ipv4_constraints ''2.0''))
      = Inl (KeyError (TtpKey ?priv ''2.0''))"
    using simple_on_ttp_query_unknown_ttp
      [of "negotiation_msg ?priv ''2.0'' (negotiate_ipv4_constraints ''2.0'')" ?priv "''2.0''"
          "negotiate_ipv4_constraints ''2.0''" new_SimpleIPv4Switch] absent
    by (simp add: negotiation_msg_def)
  have err: "simple_on_ttp_query new_SimpleIPv4Switch (negotiation_msg ?name ''1.0'' ?no)
      = Inr (ttp_query_resp_err ''No match'')"
    by code_simp
  have "\<exists>sets. map_of (PARAM_SETS new_SimpleIPv4Switch) (?name, ''1.0'') = Some sets \<and>
          (\<forall>p\<in>set sets. constraints_met ?no p = Inr False)"
    using simple_on_ttp_query_unknown_ttp
      [of "negotiation_msg ?name ''1.0'' ?no" ?name "''1.0''" ?no new_SimpleIPv4Switch
          "''No match''"] err
    by (simp add: negotiation_msg_def)
  then have "\<exists>sets. map_of (PARAM_SETS new_SimpleIPv4Switch) (?name, ''1.0'') = Some sets \<and>
          list_all (\<lambda>p. constraints_met ?no p = Inr False) sets"
    by (simp only: list_all_iff)
  then show ?thesis using absent raised err by blast
qed

subsection \<open>The budgeted-search provider\<close>

lemma map_of_setitem: "map_of (setitem d k v) = (map_of d)(k \<mapsto> v)"
  by (induction d) (auto simp: fun_eq_iff)

lemma py_min_le_right: "as_real (py_min a b) \<le> as_real b"
  by (simp add: py_min_def py_lt_def)

lemma shrinks_refl: "shrinks ps ps"
  by (simp add: shrinks_def split: option.splits)

lemma shrinks_trans: "shrinks a b \<Longrightarrow> shrinks b c \<Longrightarrow> shrinks a c"
  unfolding shrinks_def
proof (intro allI)
  fix k
  assume ab: "\<forall>k. case map_of b k of None \<Rightarrow> map_of a k = None
                 | Some v \<Rightarrow> \<exists>v'. map_of a k = Some v' \<and> as_real v' \<le> as_real v"
    and bc: "\<forall>k. case map_of c k of None \<Rightarrow> map_of b k = None
                 | Some v \<Rightarrow> \<exists>v'. map_of b k = Some v' \<and> as_real v' \<le> as_real v"
  show "case map_of c k of None \<Rightarrow> map_of a k = None
        | Some v \<Rightarrow> \<exists>v'. map_of a k = Some v' \<and> as_real v' \<le> as_real v"
    using ab [rule_format, of k] bc [rule_format, of k]
    by (auto split: option.splits)
qed

lemma shrinks_setitem:
  "shrinks ps' ps \<Longrightarrow> map_of ps k = Some v \<Longrightarrow> as_real v' \<le> as_real v
     \<Longrightarrow> shrinks (setitem ps' k v') ps"
  unfolding shrinks_def
proof (intro allI)
  fix j
  assume a: "\<forall>k. case map_of ps k of None \<Rightarrow> map_of ps' k = None
                | Some v \<Rightarrow> \<exists>v'. map_of ps' k = Some v' \<and> as_real v' \<le> as_real v"
    and k: "map_of ps k = Some v" and le: "as_real v' \<le> as_real v"
  show "case map_of ps j of None \<Rightarrow> map_of (setitem ps' k v') j = None
        | Some v \<Rightarrow> \<exists>v'a. map_of (setitem ps' k v') j = Some v'a \<and> as_real v'a \<le> as_real v"
    using a [rule_format, of j] k le
    by (cases "j = k") (auto simp: map_of_setitem split: option.splits)
qed

lemma shrinks_lookup:
  "shrinks ps' ps \<Longrightarrow> map_of ps' k = Some v' \<Longrightarrow> \<exists>v. map_of ps k = Some v \<and> as_real v' \<le> as_real v"
  unfolding shrinks_def by (erule allE [of _ k]) (auto split: option.splits)

lemma apply_constraint_shrinks:
  assumes "apply_constraint c ps = Inr ps'"
  shows "shrinks ps' ps"
proof (cases c)
  case (Bound k p lo hi w)
  define ps1 where "ps1 = (case hi of None \<Rightarrow> Inr ps
      | Some mx \<Rightarrow> bind (getitem ps p) (\<lambda>v. Inr (setitem ps p (py_min mx v))))"
  from assms Bound obtain q where q: "ps1 = Inr q"
    and rest: "(case k of KBest tgt \<Rightarrow>
                  bind (getitem q p) (\<lambda>v. Inr (if py_lt tgt v then setitem q p tgt else q))
                | _ \<Rightarrow> Inr q) = Inr ps'"
    by (auto simp: bind_eq_Inr ps1_def)
  have sq: "shrinks q ps"
  proof (cases hi)
    case None
    then show ?thesis using q by (simp add: ps1_def shrinks_refl)
  next
    case (Some mx)
    with q obtain v where "map_of ps p = Some v" "q = setitem ps p (py_min mx v)"
      by (auto simp: ps1_def bind_eq_Inr getitem_Inr)
    then show ?thesis by (simp add: shrinks_setitem shrinks_refl py_min_le_right)
  qed
  show ?thesis
  proof (cases k)
    case (KBest tgt)
    with rest obtain v where v: "map_of q p = Some v"
      and ps': "ps' = (if py_lt tgt v then setitem q p tgt else q)"
      by (auto simp: bind_eq_Inr getitem_Inr)
    from shrinks_lookup [OF sq v] obtain v0 where v0: "map_of ps p = Some v0" "as_real v \<le> as_real v0"
      by blast
    show ?thesis
    proof (cases "py_lt tgt v")
      case True
      then have "as_real tgt \<le> as_real v0" using v0 by (simp add: py_lt_def)
      then show ?thesis using ps' True sq v0 by (simp add: shrinks_setitem)
    next
      case False
      then show ?thesis using ps' sq by simp
    qed
  qed (use rest sq in auto)
next
  case (Ratio p1 p2 lo hi r w)
  from assms Ratio obtain v1 v2 q where v1: "map_of ps p1 = Some v1" and v2: "map_of ps p2 = Some v2"
    and q: "(case hi of None \<Rightarrow> Inr ps
             | Some mx \<Rightarrow> bind (py_div v1 mx) (\<lambda>max_v2. Inr (setitem ps p2 (py_min v2 max_v2))))
            = Inr q"
    and rest: "(case lo of None \<Rightarrow> Inr q
                | Some mn \<Rightarrow> (case hi of None \<Rightarrow> Inl (KeyError (StrKey ''max''))
                    | Some mx \<Rightarrow> Inr (setitem q p1 (py_min v1 (py_mul v2 mx))))) = Inr ps'"
    by (auto simp: bind_eq_Inr getitem_Inr)
  have sq: "shrinks q ps"
  proof (cases hi)
    case None
    then show ?thesis using q by (simp add: shrinks_refl)
  next
    case (Some mx)
    with q obtain m where "q = setitem ps p2 (py_min v2 m)"
      by (auto simp: bind_eq_Inr)
    moreover have "as_real (py_min v2 m) \<le> as_real v2" by (simp add: py_min_def py_lt_def)
    ultimately show ?thesis using v2 by (simp add: shrinks_setitem shrinks_refl)
  qed
  show ?thesis
  proof (cases lo)
    case None
    then show ?thesis using rest sq by simp
  next
    case (Some mn)
    with rest obtain mx where "ps' = setitem q p1 (py_min v1 (py_mul v2 mx))"
      by (auto split: option.splits)
    moreover have "as_real (py_min v1 (py_mul v2 mx)) \<le> as_real v1"
      by (simp add: py_min_def py_lt_def)
    ultimately show ?thesis using v1 sq by (simp add: shrinks_setitem)
  qed
qed

lemma apply_constraints_shrinks: "apply_constraints cs ps = Inr ps' \<Longrightarrow> shrinks ps' ps"
proof (induction cs arbitrary: ps)
  case Nil
  then show ?case by (simp add: shrinks_refl)
next
  case (Cons c cs)
  then obtain q where "apply_constraint c ps = Inr q" "apply_constraints cs q = Inr ps'"
    by (auto simp: bind_eq_Inr)
  then show ?case using Cons.IH apply_constraint_shrinks shrinks_trans by blast
qed


text \<open>
  C8.  When \<open>apply_constraints\<close> completes, the resulting dict has the keys it had before
  and the value at each key is less than or equal to the value before.
\<close>

theorem apply_constraints_only_decreases:
  assumes "apply_constraints cs ps = Inr ps'"
  shows "(map_of ps k = None \<longrightarrow> map_of ps' k = None) \<and>
         (\<forall>v. map_of ps k = Some v \<longrightarrow>
            (\<exists>v'. map_of ps' k = Some v' \<and> as_real v' \<le> as_real v))"
  using apply_constraints_shrinks [OF assms] unfolding shrinks_def
  by (auto split: option.splits dest: spec [of _ k])

theorem apply_constraints_only_decreases_witness:
  "apply_constraints (negotiate_ipv4_constraints ''1.0'')
       [(''IPV4 table size'', VInt 5500), (''MAC table size'', VInt 4500)]
     = Inr [(''IPV4 table size'', VFloat 5400), (''MAC table size'', VInt 4500)] \<and>
   (\<exists>v'. map_of [(''IPV4 table size'', VFloat 5400), (''MAC table size'', VInt 4500)]
           ''IPV4 table size'' = Some v' \<and> as_real v' \<le> as_real (VInt 5500))"
proof -
  have run: "apply_constraints (negotiate_ipv4_constraints ''1.0'')
       [(''IPV4 table size'', VInt 5500), (''MAC table size'', VInt 4500)]
     = Inr [(''IPV4 table size'', VFloat 5400), (''MAC table size'', VInt 4500)]"
    by (simp add: eval_simps)
  from apply_constraints_only_decreases [OF run, of "''IPV4 table size''"]
  have "\<exists>v'. map_of [(''IPV4 table size'', VFloat 5400), (''MAC table size'', VInt 4500)]
           ''IPV4 table size'' = Some v' \<and> as_real v' \<le> as_real (VInt 5500)"
    by simp
  then show ?thesis using run by blast
qed

lemma apply_constraint_lower_only:
  "\<exists>e. apply_constraint (Ratio p1 p2 (Some lo) None r w) ps = Inl e"
  by (cases "getitem ps p1"; cases "getitem ps p2") auto

lemma apply_constraint_lower_only_KeyError:
  "map_of ps p1 = Some v1 \<Longrightarrow> map_of ps p2 = Some v2 \<Longrightarrow>
     apply_constraint (Ratio p1 p2 (Some lo) None r w) ps = Inl (KeyError (StrKey ''max''))"
  by (simp add: getitem_def)

lemma apply_constraints_fault:
  "Ratio p1 p2 (Some lo) None r w \<in> set cs \<Longrightarrow> \<exists>e. apply_constraints cs ps = Inl e"
proof (induction cs arbitrary: ps)
  case Nil
  then show ?case by simp
next
  case (Cons c cs)
  show ?case
  proof (cases "apply_constraint c ps")
    case (Inl e)
    then show ?thesis by simp
  next
    case (Inr q)
    then have "c \<noteq> Ratio p1 p2 (Some lo) None r w"
      using apply_constraint_lower_only [of p1 p2 lo r w ps] by auto
    then show ?thesis using Cons Inr by auto
  qed
qed

lemma num_macs_range_Cons: "num_macs_range = 0 # map (\<lambda>i. 100 * int i) [1..<100]"
  by (simp add: num_macs_range_def upt_conv_Cons)


text \<open>
  C9.  A ratio constraint with a lower bound and no upper bound makes \<open>apply_constraints\<close>
  raise: on a dict that holds both parameters the error is \<open>KeyError\<close> for the key
  \<^verbatim>\<open>"max"\<close>, read by the lower-bound branch.  A query to the budgeted-search provider
  whose constraint list contains such a constraint raises as well.
\<close>

theorem ratio_lower_bound_only_faults:
  assumes "Ratio p1 p2 (Some lo) None r w \<in> set cs" "param_constraints msg = Some cs"
  shows "(\<exists>e. apply_constraints cs ps = Inl e) \<and>
         (\<exists>e. variable_on_ttp_query self msg = Inl e) \<and>
         (map_of ps p1 \<noteq> None \<and> map_of ps p2 \<noteq> None \<longrightarrow>
            apply_constraints [Ratio p1 p2 (Some lo) None r w] ps = Inl (KeyError (StrKey ''max'')))"
proof -
  obtain e where "apply_constraints cs
      [(''IPV4 table size'', VInt (10000 - 0)), (''MAC table size'', VInt 0)] = Inl e"
    using apply_constraints_fault [OF assms(1)] by blast
  then have "variable_on_ttp_query self msg = Inl e"
    using assms(2) by (simp add: variable_on_ttp_query_def num_macs_range_Cons Let_def)
  then show ?thesis
    using apply_constraints_fault [OF assms(1)] apply_constraint_lower_only_KeyError [of ps p1 _ p2 _ lo r w]
    by auto
qed

theorem ratio_lower_bound_only_faults_witness:
  "(\<exists>e. apply_constraints
          [Ratio ''IPV4 table size'' ''MAC table size'' (Some (VFloat 0.8)) None (VFloat 1.1)
             (VInt 9000)] balanced = Inl e) \<and>
   (\<exists>e. variable_on_ttp_query new_VariableIPv4Switch
          (negotiation_msg ''org.opennetworking/ttps/IPV4'' ''1.0''
             [Ratio ''IPV4 table size'' ''MAC table size'' (Some (VFloat 0.8)) None (VFloat 1.1)
                (VInt 9000)]) = Inl e) \<and>
   apply_constraints
       [Ratio ''IPV4 table size'' ''MAC table size'' (Some (VFloat 0.8)) None (VFloat 1.1)
          (VInt 9000)] balanced = Inl (KeyError (StrKey ''max'')) \<and>
   variable_on_ttp_query new_VariableIPv4Switch
       (negotiation_msg ''org.opennetworking/ttps/IPV4'' ''1.0''
          [Ratio ''IPV4 table size'' ''MAC table size'' (Some (VFloat 0.8)) None (VFloat 1.1)
             (VInt 9000)]) = Inl (KeyError (StrKey ''max''))"
proof -
  let ?c = "Ratio ''IPV4 table size'' ''MAC table size'' (Some (VFloat 0.8)) None (VFloat 1.1)
              (VInt 9000)"
  let ?msg = "negotiation_msg ''org.opennetworking/ttps/IPV4'' ''1.0'' [?c]"
  have mem: "?c \<in> set [?c]" by simp
  have pc: "param_constraints ?msg = Some [?c]" by (simp add: negotiation_msg_def)
  have q: "variable_on_ttp_query new_VariableIPv4Switch ?msg = Inl (KeyError (StrKey ''max''))"
    by (simp add: variable_on_ttp_query_def negotiation_msg_def num_macs_range_Cons getitem_def)
  from ratio_lower_bound_only_faults [OF mem pc, of balanced new_VariableIPv4Switch]
  show ?thesis using q by simp
qed

text \<open>
  C2.  When no split is feasible the loop ends with \<^verbatim>\<open>best_params = None\<close> and the
  handler returns \<^verbatim>\<open>("ttp_query_resp", {"params": None})\<close>, not an error: here on a lower
  bound of 20000 on the MAC table size, which no split of 10000 units reaches.  The
  fixed-catalog provider answers the same query with \<open>ttp_query_resp_err\<close>.
\<close>

theorem variable_on_ttp_query_no_match:
  "variable_on_ttp_query new_VariableIPv4Switch
       (negotiation_msg ''org.opennetworking/ttps/IPV4'' ''1.0''
          [Bound KMax ''MAC table size'' (Some (VInt 20000)) None (VInt 1)])
     = Inr (ttp_query_resp None) \<and>
   simple_on_ttp_query new_SimpleIPv4Switch
       (negotiation_msg ''org.opennetworking/ttps/IPV4'' ''1.0''
          [Bound KMax ''MAC table size'' (Some (VInt 20000)) None (VInt 1)])
     = Inr (ttp_query_resp_err ''No match'')"
  by code_simp

subsection \<open>Dispatch\<close>

text \<open>
  C6.  For a message kind other than \<open>ttp_begin\<close>, \<open>list_ttps\<close> and \<open>ttp_query\<close>,
  \<open>handle_msg\<close> raises \<open>AttributeError\<close> for the attribute \<open>on_\<close> followed by the kind,
  returns no response and leaves the switch as it was.
\<close>

theorem handle_msg_unknown_kind:
  assumes "msg_type \<noteq> ''ttp_begin''" "msg_type \<noteq> ''list_ttps''" "msg_type \<noteq> ''ttp_query''"
  shows "handle_msg self msg_type payload = (Inl (AttributeError (''on_'' @ msg_type)), self)"
  using assms by (simp add: handle_msg_def getattr_def)

theorem handle_msg_unknown_kind_witness:
  "handle_msg new_SimpleIPv4Switch ''not_a_real_kind''
       \<lparr>versions = None, ttp_name = None, ttp_version = None, param_constraints = None\<rparr> =
     (Inl (AttributeError ''on_not_a_real_kind''), new_SimpleIPv4Switch)"
  using handle_msg_unknown_kind [of "''not_a_real_kind''" new_SimpleIPv4Switch
      "\<lparr>versions = None, ttp_name = None, ttp_version = None, param_constraints = None\<rparr>"]
  by simp

end
